theory Spec2Isabelle
  imports Complex_Main "HOL-Library.Log_Nat"
begin

section \<open>Numbers: Python floats as rationals rounded to binary64\<close>

text \<open>
  A Python float is modelled by the rational number it denotes. Every arithmetic
  operation of the source is followed by \<open>fl\<close>, the rounding of the exact result to the
  nearest number with a 53-bit significand, ties to even. The exponent is unbounded:
  the model coincides with IEEE binary64 where no overflow or underflow occurs
  (infinities and NaN are not modelled).
\<close>

type_synonym float = rat

definition pow2 :: "int \<Rightarrow> rat" where
  "pow2 e = (if 0 \<le> e then 2 ^ nat e else 1 / 2 ^ nat (- e))"

text \<open>Rounding a rational to the nearest integer, ties to the even neighbour.\<close>

definition rhe :: "rat \<Rightarrow> int" where
  "rhe x =
     (let f = \<lfloor>x\<rfloor>; d = x - of_int f
      in if d < 1 / 2 then f
         else if 1 / 2 < d then f + 1
         else if even f then f else f + 1)"

text \<open>The binary exponent of a positive rational: \<open>pow2 e \<le> x < pow2 (e + 1)\<close>.\<close>

definition ilog2 :: "rat \<Rightarrow> int" where
  "ilog2 x =
     (let (p, q) = quotient_of x; d = bitlen p - bitlen q
      in if pow2 d \<le> x then d else d - 1)"

definition fl :: "rat \<Rightarrow> float" where
  "fl x =
     (if x = 0 then 0
      else let u = pow2 (ilog2 \<bar>x\<bar> - 52)
           in sgn x * of_int (rhe (\<bar>x\<bar> / u)) * u)"

text \<open>\<open>int / int\<close> (true division), \<open>float / int\<close>, \<open>int * float\<close>, \<open>float + float\<close>.\<close>

definition int_truediv :: "int \<Rightarrow> int \<Rightarrow> float" where
  "int_truediv a b = fl (of_int a / of_int b)"

definition float_div_int :: "float \<Rightarrow> int \<Rightarrow> float" where
  "float_div_int x b = fl (x / fl (of_int b))"

definition int_mul_float :: "int \<Rightarrow> float \<Rightarrow> float" where
  "int_mul_float n x = fl (fl (of_int n) * x)"

definition float_add :: "float \<Rightarrow> float \<Rightarrow> float" where
  "float_add x y = fl (x + y)"

text \<open>
  The builtin \<open>round(x, 2)\<close> on a float: the exact value is rounded to two decimals,
  ties to even, and the decimal is converted back to the nearest float.
\<close>

definition round2 :: "float \<Rightarrow> float" where
  "round2 x = fl (of_int (rhe (x * 100)) / 100)"

section \<open>Data model\<close>

datatype error = OSError | DriverError | RuntimeError | AttributeError

text \<open>\<open>os.stat_result\<close>: the fields the program can reach.\<close>

record stat_result =
  st_size :: int
  st_ctime :: float
  st_atime :: float
  st_mtime :: float

text \<open>\<open>os.DirEntry\<close>: \<open>stat()\<close> may raise, so its outcome is a sum.\<close>

record DirEntry =
  entry_name :: string
  entry_path :: string
  entry_stat :: "error + stat_result"

type_synonym crs = "(string \<times> string) list"

text \<open>An open fiona collection: \<open>bounds\<close>, \<open>driver\<close>, \<open>crs\<close>.\<close>

record vector_file =
  bounds :: "float \<times> float \<times> float \<times> float"
  driver :: string
  vcrs :: crs

text \<open>An open GDAL dataset.\<close>

record raster_file =
  GetProjection :: string
  DriverLongName :: string
  GetGeoTransform :: "float \<times> float \<times> float \<times> float \<times> float \<times> float"
  RasterXSize :: int
  RasterYSize :: int

text \<open>The dictionary returned by both readers: four fixed keys.\<close>

record spatial_information =
  si_extent :: "float list"
  si_format :: string
  si_spatial_reference :: string
  si_data_type :: string

record Metadata =
  name :: string
  data_type :: string
  format :: string
  volume_in_MB :: float
  spatial_reference :: string
  extent :: "float list"
  creation_date :: string
  update_date :: string

text \<open>
  The external collaborators. Paths handed to \<open>fiona_open\<close> and \<open>gdal_Open\<close> are
  already resolved against the working directory. \<open>gdal_Open\<close> either raises, returns
  \<open>None\<close>, or returns a dataset. \<open>listdir\<close> enumerates a directory: names with the
  outcome of each entry's \<open>stat()\<close>.
\<close>

record env =
  cwd :: string
  script_dir :: string
  listdir :: "string \<Rightarrow> error + (string \<times> (error + stat_result)) list"
  fiona_open :: "string \<Rightarrow> error + vector_file"
  gdal_Open :: "string \<Rightarrow> error + raster_file option"
  to_string :: "crs \<Rightarrow> string"
  fromtimestamp_ctime :: "float \<Rightarrow> string"
  float_str :: "float \<Rightarrow> string"

section \<open>Paths\<close>

definition startswith :: "string \<Rightarrow> string \<Rightarrow> bool" where
  "startswith s p \<longleftrightarrow> take (length p) s = p"

definition endswith :: "string \<Rightarrow> string \<Rightarrow> bool" where
  "endswith s suf \<longleftrightarrow> length suf \<le> length s \<and> drop (length s - length suf) s = suf"

text \<open>\<open>posixpath.join\<close> of two components.\<close>

definition os_path_join :: "string \<Rightarrow> string \<Rightarrow> string" where
  "os_path_join a b =
     (if startswith b ''/'' then b
      else if a = [] \<or> endswith a ''/'' then a @ b
      else a @ ''/'' @ b)"

text \<open>A relative path given to a system call is resolved against the working directory.\<close>

definition resolve :: "env \<Rightarrow> string \<Rightarrow> string" where
  "resolve E p = os_path_join (cwd E) p"

text \<open>\<open>os.scandir(path)\<close>: each entry's \<open>path\<close> is \<open>join(path, name)\<close>.\<close>

definition os_scandir :: "env \<Rightarrow> string \<Rightarrow> error + DirEntry list" where
  "os_scandir E p =
     (case listdir E p of
        Inl e \<Rightarrow> Inl e
      | Inr ns \<Rightarrow> Inr (map (\<lambda>(n, st).
          \<lparr>entry_name = n, entry_path = os_path_join p n, entry_stat = st\<rparr>) ns))"

section \<open>The readers\<close>

definition vector_data_reader :: "env \<Rightarrow> DirEntry \<Rightarrow> error + spatial_information" where
  "vector_data_reader E sourcefile =
     (case fiona_open E (resolve E (entry_name sourcefile)) of
        Inl e \<Rightarrow> Inl e
      | Inr file \<Rightarrow>
          (case bounds file of (a, b, c, d) \<Rightarrow>
             Inr \<lparr>si_extent = [a, b, c, d],
                  si_format = driver file,
                  si_spatial_reference = to_string E (vcrs file),
                  si_data_type = ''vector''\<rparr>))"

definition raster_data_reader :: "env \<Rightarrow> DirEntry \<Rightarrow> error + spatial_information" where
  "raster_data_reader E sourcefile =
     (case gdal_Open E (resolve E (entry_name sourcefile)) of
        Inl e \<Rightarrow> Inl e
      | Inr None \<Rightarrow> Inl AttributeError
      | Inr (Some file) \<Rightarrow>
          (case GetGeoTransform file of (xmin, xres, _, ymax, yres, _) \<Rightarrow>
             let xmax = float_add xmin (int_mul_float (RasterXSize file) xres);
                 ymin = float_add ymax (int_mul_float (RasterYSize file) yres)
             in Inr \<lparr>si_extent = [xmin, ymin, xmax, ymax],
                     si_format = DriverLongName file,
                     si_spatial_reference = GetProjection file,
                     si_data_type = ''raster''\<rparr>))"

section \<open>Assembling a record\<close>

definition metadata_creator :: "env \<Rightarrow> string \<Rightarrow> stat_result \<Rightarrow> spatial_information \<Rightarrow> Metadata" where
  "metadata_creator E nm non_spatial_information spatial_info =
     \<lparr>name = nm,
      data_type = si_data_type spatial_info,
      format = si_format spatial_info,
      volume_in_MB =
        round2 (float_div_int (int_truediv (st_size non_spatial_information) 1024) 1024),
      spatial_reference = si_spatial_reference spatial_info,
      extent = si_extent spatial_info,
      creation_date = fromtimestamp_ctime E (st_ctime non_spatial_information),
      update_date = fromtimestamp_ctime E (st_atime non_spatial_information)\<rparr>"

section \<open>Dispatch on the suffix\<close>

definition parse_metadata :: "env \<Rightarrow> DirEntry \<Rightarrow> error + Metadata option" where
  "parse_metadata E sourcefile =
     (case entry_stat sourcefile of
        Inl e \<Rightarrow> Inl e
      | Inr non_spatial_information \<Rightarrow>
          let nm = entry_name sourcefile
          in if endswith (entry_name sourcefile) ''.gpkg'' \<or>
                endswith (entry_name sourcefile) ''.shp'' \<or>
                endswith (entry_name sourcefile) ''.geojson''
             then (case vector_data_reader E sourcefile of
                     Inl e \<Rightarrow> Inl e
                   | Inr spatial_info \<Rightarrow>
                       Inr (Some (metadata_creator E nm non_spatial_information spatial_info)))
             else if endswith (entry_name sourcefile) ''.tif'' \<or>
                     endswith (entry_name sourcefile) ''.img''
             then (case raster_data_reader E sourcefile of
                     Inl e \<Rightarrow> Inl e
                   | Inr spatial_info \<Rightarrow>
                       Inr (Some (metadata_creator E nm non_spatial_information spatial_info)))
             else Inr None)"

section \<open>The CSV writer\<close>

text \<open>
  \<open>str()\<close> of a tuple of floats, as \<open>csv\<close> applies it to a field that is not a string:
  the elements separated by a comma and a space, a one-element tuple with a trailing comma.
\<close>

fun join_with :: "string \<Rightarrow> string list \<Rightarrow> string" where
  "join_with sep [] = []"
| "join_with sep [x] = x"
| "join_with sep (x # y # ys) = x @ sep @ join_with sep (y # ys)"

definition tuple_str :: "env \<Rightarrow> float list \<Rightarrow> string" where
  "tuple_str E xs =
     (case xs of
        [x] \<Rightarrow> ''('' @ float_str E x @ '',)''
      | _ \<Rightarrow> ''('' @ join_with '', '' (map (float_str E) xs) @ '')'')"

definition fields_names :: "string list" where
  "fields_names = [''name'', ''data_type'', ''format'', ''volume_in_MB'',
                   ''spatial_reference'', ''extent'', ''creation_date'', ''update_date'']"

text \<open>
  \<open>asdict\<close> followed by \<open>DictWriter\<close>: the fields of a record in the order of
  \<open>fields_names\<close>, each as text.
\<close>

definition row_of :: "env \<Rightarrow> Metadata \<Rightarrow> string list" where
  "row_of E m =
     [name m, data_type m, format m, float_str E (volume_in_MB m),
      spatial_reference m, tuple_str E (extent m), creation_date m, update_date m]"

text \<open>
  The default dialect: fields separated by a comma, a field quoted only when it holds a
  comma, a quote, a carriage return or a line feed, quotes doubled inside, every row
  ended by carriage return and line feed.
\<close>

definition special_chars :: "char list" where
  "special_chars = [CHR '','', CHR 0x22, CHR 0x0D, CHR 0x0A]"

definition quote_field :: "string \<Rightarrow> string" where
  "quote_field f =
     (if list_ex (\<lambda>c. List.member special_chars c) f
      then [CHR 0x22] @ concat (map (\<lambda>c. if c = CHR 0x22 then [c, c] else [c]) f) @ [CHR 0x22]
      else f)"

definition render_row :: "string list \<Rightarrow> string" where
  "render_row fs = join_with '','' (map quote_field fs) @ [CHR 0x0D, CHR 0x0A]"

definition csv_text :: "string list list \<Rightarrow> string" where
  "csv_text rows = concat (map render_row rows)"

section \<open>Scanning a directory\<close>

text \<open>The files written so far, by absolute path.\<close>

type_synonym world = "string \<rightharpoonup> string"

text \<open>The loop over the scanner: \<open>store\<close> is \<open>metadata_store\<close>; an error ends the loop.\<close>

fun collect :: "env \<Rightarrow> DirEntry list \<Rightarrow> Metadata list \<Rightarrow> error + Metadata list" where
  "collect E [] store = Inr store"
| "collect E (sourcefile # rest) store =
     (case parse_metadata E sourcefile of
        Inl e \<Rightarrow> Inl e
      | Inr None \<Rightarrow> collect E rest store
      | Inr (Some metadata) \<Rightarrow> collect E rest (store @ [metadata]))"

definition scan_directory :: "env \<Rightarrow> string option \<Rightarrow> world \<Rightarrow> (error + unit) \<times> world" where
  "scan_directory E path w =
     (let p = (case path of None \<Rightarrow> script_dir E | Some q \<Rightarrow> q)
      in case os_scandir E p of
           Inl e \<Rightarrow> (Inl e, w)
         | Inr scanner \<Rightarrow>
             (case collect E scanner [] of
                Inl e \<Rightarrow> (Inl e, w)
              | Inr metadata_store \<Rightarrow>
                  (Inr (),
                   w(resolve E ''metadata.csv'' \<mapsto>
                       csv_text (fields_names # map (row_of E) metadata_store)))))"

section \<open>A sample directory\<close>

text \<open>
  A directory \<open>/data\<close> with a GeoJSON file, a GeoTIFF and a text file, a directory
  \<open>/gone\<close> whose only entry can no longer be examined, and an empty directory. The
  process runs in the directory \<open>c\<close>. The datasets exist under \<open>/data\<close> only.
\<close>

definition ex_stat :: stat_result where
  "ex_stat = \<lparr>st_size = 1572864, st_ctime = 1700000000, st_atime = 1700000500,
              st_mtime = 1700000250\<rparr>"

definition ex_vector :: vector_file where
  "ex_vector = \<lparr>bounds = (0, 0, 1, 1), driver = ''GeoJSON'', vcrs = [(''init'', ''epsg:4326'')]\<rparr>"

definition ex_raster :: raster_file where
  "ex_raster = \<lparr>GetProjection = ''EPSG:32633'', DriverLongName = ''GeoTIFF'',
                GetGeoTransform = (100, 10, 0, 500, 0, - 10),
                RasterXSize = 50, RasterYSize = 50\<rparr>"

definition ex_env :: "string \<Rightarrow> env" where
  "ex_env c =
     \<lparr>cwd = c,
      script_dir = ''/app'',
      listdir = (\<lambda>p.
        if p = ''/data'' then
          Inr [(''a.geojson'', Inr ex_stat), (''b.tif'', Inr ex_stat), (''c.txt'', Inr ex_stat)]
        else if p = ''/gone'' then Inr [(''x.txt'', Inl OSError)]
        else if p = ''/empty'' then Inr []
        else Inl OSError),
      fiona_open = (\<lambda>p. if p = ''/data/a.geojson'' then Inr ex_vector else Inl DriverError),
      gdal_Open = (\<lambda>p. if p = ''/data/b.tif'' then Inr (Some ex_raster) else Inr None),
      to_string = (\<lambda>c. ''+init=epsg:4326''),
      fromtimestamp_ctime = (\<lambda>t.
        if t = 1700000000 then ''Tue Nov 14 22:13:20 2023''
        else if t = 1700000500 then ''Tue Nov 14 22:21:40 2023''
        else ''Tue Nov 14 22:17:30 2023''),
      float_str = (\<lambda>x.
        if x = 3 / 2 then ''1.5'' else if x = 0 then ''0.0'' else if x = 1 then ''1.0''
        else if x = 100 then ''100.0'' else if x = 500 then ''500.0''
        else if x = 600 then ''600.0'' else ''nan'')\<rparr>"

definition ex_entry :: "string \<Rightarrow> string \<Rightarrow> DirEntry" where
  "ex_entry d n = \<lparr>entry_name = n, entry_path = os_path_join d n, entry_stat = Inr ex_stat\<rparr>"

section \<open>Properties of the float model\<close>

lemma pow2_powi: "pow2 e = 2 powi e"
  by (simp add: pow2_def power_int_def inverse_eq_divide power_one_over)

lemma pow2_pos [simp]: "0 < pow2 e"
  by (simp add: pow2_def)

lemma pow2_add: "pow2 (a + b) = pow2 a * pow2 b"
  by (simp add: pow2_powi power_int_add)

lemma pow2_split: "a = b + c \<Longrightarrow> pow2 a = pow2 b * pow2 c"
  by (simp add: pow2_add)

lemma pow2_mono: "a \<le> b \<Longrightarrow> pow2 a \<le> pow2 b"
  by (simp add: pow2_powi power_int_increasing)

lemma pow2_strict_mono: "a < b \<Longrightarrow> pow2 a < pow2 b"
  by (simp add: pow2_powi power_int_strict_increasing)

lemma pow2_less_iff: "pow2 a < pow2 b \<longleftrightarrow> a < b"
proof
  assume h: "pow2 a < pow2 b"
  show "a < b"
  proof (rule ccontr)
    assume "\<not> a < b"
    then have "pow2 b \<le> pow2 a" by (simp add: pow2_mono)
    with h show False by simp
  qed
qed (rule pow2_strict_mono)

lemma pow2_nz [simp]: "pow2 e \<noteq> 0"
  by (simp add: pow2_def)

lemma pow2_abs [simp]: "\<bar>pow2 e\<bar> = pow2 e"
  using pow2_pos [of e] by (simp only: abs_of_pos)

lemma pow2_sgn [simp]: "sgn (pow2 e) = 1"
  using pow2_pos [of e] by (simp only: sgn_pos)

lemma pow2_nat: "pow2 (int n) = 2 ^ n"
  by (simp add: pow2_def)

lemma rhe_of_int [simp]: "rhe (of_int n) = n"
  by (simp add: rhe_def)

lemma rhe_ge: "of_int a \<le> x \<Longrightarrow> a \<le> rhe x"
  unfolding rhe_def Let_def by (auto simp: le_floor_iff) linarith+

lemma rhe_le: "x \<le> of_int b \<Longrightarrow> rhe x \<le> b"
  unfolding rhe_def Let_def
  by (auto simp: floor_le_iff)

lemma ilog2_bounds:
  assumes "0 < x"
  shows "pow2 (ilog2 x) \<le> x \<and> x < pow2 (ilog2 x + 1)"
proof -
  obtain p q where pq: "quotient_of x = (p, q)" by (cases "quotient_of x")
  have q: "0 < q" using pq by (rule quotient_of_denom_pos)
  have x: "x = of_int p / of_int q" using pq by (rule quotient_of_div)
  have p: "0 < p" using assms q x by (simp add: zero_less_divide_iff)
  let ?bp = "bitlen p" and ?bq = "bitlen q"
  have bp1: "1 \<le> ?bp" using p bitlen_eq_zero_iff [of p] bitlen_nonneg [of p] by linarith
  have bq1: "1 \<le> ?bq" using q bitlen_eq_zero_iff [of q] bitlen_nonneg [of q] by linarith
  have plo: "pow2 (?bp - 1) \<le> of_int p"
  proof -
    have "(2::int) ^ nat (?bp - 1) \<le> p" using bitlen_bounds [OF p] by simp
    then have "of_int ((2::int) ^ nat (?bp - 1)) \<le> (of_int p :: rat)" by (simp only: of_int_le_iff)
    then show ?thesis using bp1 by (simp add: pow2_def)
  qed
  have phi: "of_int p < pow2 ?bp"
  proof -
    have "p < (2::int) ^ nat ?bp" using bitlen_bounds [OF p] by simp
    then have "(of_int p :: rat) < of_int ((2::int) ^ nat ?bp)" by (simp only: of_int_less_iff)
    then show ?thesis using bp1 by (simp add: pow2_def)
  qed
  have qlo: "pow2 (?bq - 1) \<le> of_int q"
  proof -
    have "(2::int) ^ nat (?bq - 1) \<le> q" using bitlen_bounds [OF q] by simp
    then have "of_int ((2::int) ^ nat (?bq - 1)) \<le> (of_int q :: rat)" by (simp only: of_int_le_iff)
    then show ?thesis using bq1 by (simp add: pow2_def)
  qed
  have qhi: "of_int q < pow2 ?bq"
  proof -
    have "q < (2::int) ^ nat ?bq" using bitlen_bounds [OF q] by simp
    then have "(of_int q :: rat) < of_int ((2::int) ^ nat ?bq)" by (simp only: of_int_less_iff)
    then show ?thesis using bq1 by (simp add: pow2_def)
  qed
  let ?d = "?bp - ?bq"
  have qpos: "(0::rat) < of_int q" using q by simp
  have upper: "x < pow2 (?d + 1)"
  proof -
    have "pow2 ?bp = pow2 (?d + 1) * pow2 (?bq - 1)"
      by (simp add: pow2_add [symmetric])
    also have "\<dots> \<le> pow2 (?d + 1) * of_int q"
      using qlo by (simp add: mult_left_mono less_imp_le)
    finally have "of_int p < pow2 (?d + 1) * of_int q" using phi by simp
    then show ?thesis using qpos by (simp add: x pos_divide_less_eq)
  qed
  have lower: "pow2 (?d - 1) < x"
  proof -
    have "pow2 (?d - 1) * of_int q < pow2 (?d - 1) * pow2 ?bq"
      using qhi by (simp add: mult_strict_left_mono)
    also have "\<dots> = pow2 (?bp - 1)"
      by (simp add: pow2_add [symmetric])
    finally have "pow2 (?d - 1) * of_int q < of_int p" using plo by simp
    then show ?thesis using qpos by (simp add: x pos_less_divide_eq)
  qed
  show ?thesis
  proof (cases "pow2 ?d \<le> x")
    case True
    then have "ilog2 x = ?d" by (simp add: ilog2_def pq)
    then show ?thesis using True upper by simp
  next
    case False
    then have "ilog2 x = ?d - 1" by (simp add: ilog2_def pq)
    then show ?thesis using False lower by simp
  qed
qed

lemma ilog2_unique:
  assumes "0 < x" "pow2 e \<le> x" "x < pow2 (e + 1)"
  shows "ilog2 x = e"
proof -
  have b: "pow2 (ilog2 x) \<le> x" "x < pow2 (ilog2 x + 1)"
    using ilog2_bounds [OF assms(1)] by simp_all
  have "pow2 e < pow2 (ilog2 x + 1)" using assms(2) b(2) by simp
  then have 1: "e < ilog2 x + 1" by (simp only: pow2_less_iff)
  have "pow2 (ilog2 x) < pow2 (e + 1)" using assms(3) b(1) by simp
  then have 2: "ilog2 x < e + 1" by (simp only: pow2_less_iff)
  show ?thesis using 1 2 by simp
qed

lemma ilog2_scale:
  assumes "0 < x"
  shows "ilog2 (x * pow2 k) = ilog2 x + k"
proof (rule ilog2_unique)
  show "0 < x * pow2 k" using assms by simp
  show "pow2 (ilog2 x + k) \<le> x * pow2 k"
    using ilog2_bounds [OF assms] by (simp add: pow2_add)
  have "x * pow2 k < pow2 (ilog2 x + 1) * pow2 k"
    using ilog2_bounds [OF assms] by (simp add: mult_strict_right_mono)
  then show "x * pow2 k < pow2 (ilog2 x + k + 1)"
    by (simp add: pow2_add [symmetric] add.commute add.left_commute)
qed

lemma fl_scale: "fl (x * pow2 k) = fl x * pow2 k"
proof (cases "x = 0")
  case True
  then show ?thesis by (simp add: fl_def)
next
  case False
  then have ax: "0 < \<bar>x\<bar>" by simp
  have nz: "x * pow2 k \<noteq> 0" using False by simp
  have abs: "\<bar>x * pow2 k\<bar> = \<bar>x\<bar> * pow2 k"
    by (simp add: abs_mult)
  have e: "ilog2 (\<bar>x\<bar> * pow2 k) = ilog2 \<bar>x\<bar> + k"
    by (rule ilog2_scale [OF ax])
  have "ilog2 \<bar>x\<bar> + k - 52 = (ilog2 \<bar>x\<bar> - 52) + k" by simp
  then have u: "pow2 (ilog2 \<bar>x\<bar> + k - 52) = pow2 (ilog2 \<bar>x\<bar> - 52) * pow2 k"
    by (simp only: pow2_add)
  have kz: "pow2 k \<noteq> 0" by simp
  have q: "\<bar>x\<bar> * pow2 k / (pow2 (ilog2 \<bar>x\<bar> - 52) * pow2 k) = \<bar>x\<bar> / pow2 (ilog2 \<bar>x\<bar> - 52)"
    using kz by simp
  have s: "sgn (x * pow2 k) = sgn x"
    by (simp add: sgn_mult)
  have "fl (x * pow2 k) =
      sgn (x * pow2 k) * of_int (rhe (\<bar>x * pow2 k\<bar> / pow2 (ilog2 \<bar>x * pow2 k\<bar> - 52)))
        * pow2 (ilog2 \<bar>x * pow2 k\<bar> - 52)"
    using nz by (simp only: fl_def Let_def if_False)
  also have "\<dots> = sgn x * of_int (rhe (\<bar>x\<bar> / pow2 (ilog2 \<bar>x\<bar> - 52)))
        * (pow2 (ilog2 \<bar>x\<bar> - 52) * pow2 k)"
    by (simp only: abs e u q s)
  also have "\<dots> = fl x * pow2 k"
    using False by (simp add: fl_def Let_def)
  finally show ?thesis .
qed


lemma fl_minus: "fl (- x) = - fl x"
  by (simp add: fl_def Let_def)

lemma fl_nonneg: "0 \<le> x \<Longrightarrow> 0 \<le> fl x"
proof -
  assume h: "0 \<le> x"
  have "0 \<le> \<bar>x\<bar> / pow2 (ilog2 \<bar>x\<bar> - 52)"
    using pow2_pos [of "ilog2 \<bar>x\<bar> - 52"] by (simp add: less_imp_le)
  then have "(of_int 0 :: rat) \<le> \<bar>x\<bar> / pow2 (ilog2 \<bar>x\<bar> - 52)" by simp
  then have "0 \<le> rhe (\<bar>x\<bar> / pow2 (ilog2 \<bar>x\<bar> - 52))" by (rule rhe_ge)
  then show ?thesis
    using h pow2_pos [of "ilog2 \<bar>x\<bar> - 52"]
    by (simp add: fl_def Let_def less_imp_le sgn_if)
qed

lemma fl_of_int_pos:
  assumes "0 < m" "m \<le> 2 ^ 53"
  shows "fl (of_int m) = of_int m"
proof (cases "m = 2 ^ 53")
  case True
  show ?thesis unfolding True by code_simp
next
  case False
  let ?x = "of_int m :: rat"
  let ?e = "ilog2 ?x"
  have xpos: "0 < ?x" using assms(1) by simp
  have b: "pow2 ?e \<le> ?x" "?x < pow2 (?e + 1)"
    using ilog2_bounds [OF xpos] by simp_all
  have "m < 2 ^ 53" using assms(2) False by simp
  then have "?x < of_int (2 ^ 53)" by (simp only: of_int_less_iff)
  then have "?x < pow2 53" by (simp add: pow2_def)
  then have "pow2 ?e < pow2 53" using b(1) by simp
  then have e53: "?e \<le> 52" by (simp add: pow2_less_iff)
  have u: "pow2 (?e - 52) * pow2 (52 - ?e) = 1"
    by (simp add: pow2_add [symmetric] pow2_def)
  have "?x / pow2 (?e - 52) = ?x * pow2 (52 - ?e)"
    using u by (simp add: field_simps)
  also have "\<dots> = of_int (m * 2 ^ nat (52 - ?e))"
    using e53 by (simp add: pow2_def)
  finally have q: "?x / pow2 (?e - 52) = of_int (m * 2 ^ nat (52 - ?e))" .
  have "rhe (?x / pow2 (?e - 52)) = m * 2 ^ nat (52 - ?e)"
    unfolding q by (rule rhe_of_int)
  then have "of_int (rhe (?x / pow2 (?e - 52))) = ?x * pow2 (52 - ?e)"
    using e53 by (simp add: pow2_def)
  then have "of_int (rhe (?x / pow2 (?e - 52))) * pow2 (?e - 52) = ?x"
    using u by (simp add: mult.assoc mult.commute [of "pow2 (52 - ?e)"])
  then show ?thesis using assms(1) by (simp add: fl_def Let_def)
qed

lemma fl_repr:
  assumes "0 < m" "m \<le> 2 ^ 53"
  shows "fl (of_int m * pow2 k) = of_int m * pow2 k"
  by (simp only: fl_scale fl_of_int_pos [OF assms])

lemma fl_idem: "fl (fl x) = fl x"
proof (cases "x = 0")
  case True
  then show ?thesis by (simp add: fl_def)
next
  case False
  let ?a = "\<bar>x\<bar>"
  let ?e = "ilog2 ?a"
  let ?u = "pow2 (?e - 52)"
  let ?m = "rhe (?a / ?u)"
  have apos: "0 < ?a" using False by simp
  have b: "pow2 ?e \<le> ?a" "?a < pow2 (?e + 1)"
    using ilog2_bounds [OF apos] by simp_all
  have e1: "pow2 ?e = pow2 52 * ?u" by (rule pow2_split) simp
  have e2: "pow2 (?e + 1) = pow2 53 * ?u" by (rule pow2_split) simp
  have lo: "pow2 52 \<le> ?a / ?u"
    using b(1) unfolding e1 by (simp add: pos_le_divide_eq)
  have hi: "?a / ?u \<le> pow2 53"
    using b(2) unfolding e2 by (simp add: pos_divide_le_eq less_imp_le)
  have "(of_int (2 ^ 52) :: rat) \<le> ?a / ?u" using lo by (simp add: pow2_def)
  then have mlo: "2 ^ 52 \<le> ?m" by (rule rhe_ge)
  have "?a / ?u \<le> (of_int (2 ^ 53) :: rat)" using hi by (simp add: pow2_def)
  then have mhi: "?m \<le> 2 ^ 53" by (rule rhe_le)
  have mpos: "0 < ?m" using mlo by simp
  have r: "fl (of_int ?m * ?u) = of_int ?m * ?u"
    by (rule fl_repr [OF mpos mhi])
  show ?thesis
  proof (cases "0 < x")
    case True
    then have "fl x = of_int ?m * ?u" by (simp add: fl_def Let_def)
    then show ?thesis using r by simp
  next
    case neg: False
    then have "x < 0" using False by simp
    then have fx: "fl x = - (of_int ?m * ?u)" by (simp add: fl_def Let_def)
    show ?thesis unfolding fx by (simp only: fl_minus r)
  qed
qed

lemma fl_1024: "fl 1024 = 1024"
  by code_simp

section \<open>The size in megabytes\<close>

text \<open>
  C4. For every byte size, \<open>volume_in_MB\<close> is \<open>round(size / 1048576, 2)\<close> exactly. The
  source divides by 1024 twice; each division by a power of two only moves the binary
  exponent, so the two intermediate roundings lose nothing.
\<close>

theorem volume_in_MB_exact:
  "volume_in_MB (metadata_creator E nm st si) = round2 (int_truediv (st_size st) 1048576)"
proof -
  let ?s = "st_size st"
  have p10: "pow2 (- 10) = 1 / 1024" by (simp add: pow2_def)
  have p20: "pow2 (- 20) = 1 / 1048576" by (simp add: pow2_def)
  have a: "int_truediv ?s 1024 = fl (of_int ?s) * pow2 (- 10)"
    unfolding int_truediv_def fl_scale [symmetric] by (simp add: p10)
  have "float_div_int (int_truediv ?s 1024) 1024 = fl (fl (of_int ?s) * pow2 (- 10) * pow2 (- 10))"
    unfolding float_div_int_def a by (simp add: fl_1024 p10)
  also have "\<dots> = fl (fl (of_int ?s) * pow2 (- 20))"
    by (simp add: mult.assoc pow2_add [symmetric])
  also have "\<dots> = fl (of_int ?s) * pow2 (- 20)"
    by (simp only: fl_scale fl_idem)
  also have "\<dots> = int_truediv ?s 1048576"
    unfolding int_truediv_def fl_scale [symmetric] by (simp add: p20)
  finally show ?thesis by (simp add: metadata_creator_def)
qed

section \<open>The raster extent\<close>

text \<open>
  What the reader computes: the lower edge is taken from the fifth element of the
  geotransform, the upper edge and the left edge are passed through.
\<close>

lemma raster_extent_computed:
  assumes "gdal_Open E (resolve E (entry_name sf)) = Inr (Some f)"
    and "GetGeoTransform f = (g0, g1, g2, g3, g4, g5)"
  shows "map_sum id si_extent (raster_data_reader E sf) =
           Inr [g0, float_add g3 (int_mul_float (RasterYSize f) g4),
                float_add g0 (int_mul_float (RasterXSize f) g1), g3]"
  using assms by (simp add: raster_data_reader_def Let_def)

text \<open>
  C1. The extent of a raster with geotransform \<open>(100, 10, 0, 500, 0, -10)\<close> and size
  50 by 50 is expected to be \<open>(100, 0, 600, 500)\<close>. The reader returns
  \<open>(100, 500, 600, 500)\<close>: it multiplies the height by the fifth element of the
  geotransform (a rotation term, here 0), not by the sixth (the pixel size in Y).
\<close>

theorem raster_extent_at_spec_example:
  "map_sum id si_extent (raster_data_reader (ex_env ''/data'') (ex_entry ''/data'' ''b.tif''))
     = Inr [100, 500, 600, 500]"
  by code_simp

end
